theory Spec2Isabelle
  imports Main "HOL-Library.Word"
begin

section \<open>The session registry of package rtc\<close>

text \<open>
  The Go package \<^verbatim>\<open>rtc\<close> keeps a table of rooms, each room a table of users, each
  user a pointer to the websocket connection it is written to. The operations run under
  one lock (\<^verbatim>\<open>s.mu\<close>), so each of them is one atomic step on the table: the model is
  sequential, passes the service explicitly and returns it updated.

  A \<^verbatim>\<open>*websocket.Conn\<close> is a pointer: \<open>None\<close> is \<^verbatim>\<open>nil\<close>, \<open>Some a\<close> the
  connection at address \<open>a\<close>. Every \<^verbatim>\<open>*Room\<close> and \<^verbatim>\<open>*User\<close> of the table is
  allocated by the operation that stores it and is stored under one key only, so the
  table is modelled by value.
\<close>

type_synonym byte = "8 word"

type_synonym conn = nat

record User =
  ID :: string
  Conn :: "conn option"

record Room =
  ID :: string
  Users :: "string \<rightharpoonup> User"

record RTCService =
  Rooms :: "string \<rightharpoonup> Room"

text \<open>
  The errors are built by \<^verbatim>\<open>fmt.Errorf\<close>; a constructor stands for each format string
  and carries its arguments. \<open>Error\<close> is the text of the Go error.
\<close>

datatype error =
    RoomAlreadyExists string
  | RoomNotFound string
  | ParticipantAlreadyInRoom string string
  | ParticipantNotInRoom string string
  | SendFailed string string string
  | DeliveryFailure "error list"

fun join_sp :: "string list \<Rightarrow> string" where
  "join_sp [] = []"
| "join_sp [x] = x"
| "join_sp (x # y # ys) = x @ '' '' @ join_sp (y # ys)"

fun Error :: "error \<Rightarrow> string" where
  "Error (RoomAlreadyExists roomID) = ''room '' @ roomID @ '' already exists''"
| "Error (RoomNotFound roomID) = ''room '' @ roomID @ '' not found''"
| "Error (ParticipantAlreadyInRoom userID roomID) =
     ''user '' @ userID @ '' already in room '' @ roomID"
| "Error (ParticipantNotInRoom userID roomID) =
     ''user '' @ userID @ '' not in room '' @ roomID"
| "Error (SendFailed userID roomID err) =
     ''failed to send message to user '' @ userID @ '' in room '' @ roomID @ '': '' @ err"
| "Error (DeliveryFailure sendErrors) =
     ''errors during SignalMessage broadcast: ['' @ join_sp (map Error sendErrors) @ '']''"

subsection \<open>Room lifecycle\<close>

definition NewRTCService :: RTCService where
  "NewRTCService = \<lparr>Rooms = Map.empty\<rparr>"

definition CreateRoom :: "RTCService \<Rightarrow> string \<Rightarrow> (error + Room) \<times> RTCService" where
  "CreateRoom s roomID =
     (case Rooms s roomID of
        Some _ \<Rightarrow> (Inl (RoomAlreadyExists roomID), s)
      | None \<Rightarrow>
          (let room = \<lparr>Room.ID = roomID, Users = Map.empty\<rparr>
           in (Inr room, s\<lparr>Rooms := (Rooms s)(roomID \<mapsto> room)\<rparr>)))"

definition JoinRoom ::
  "RTCService \<Rightarrow> string \<Rightarrow> string \<Rightarrow> conn option \<Rightarrow> (error + Room) \<times> RTCService" where
  "JoinRoom s roomID userID c =
     (case Rooms s roomID of
        None \<Rightarrow> (Inl (RoomNotFound roomID), s)
      | Some room \<Rightarrow>
          (case Users room userID of
             Some _ \<Rightarrow> (Inl (ParticipantAlreadyInRoom userID roomID), s)
           | None \<Rightarrow>
               (let user = \<lparr>User.ID = userID, Conn = c\<rparr>;
                    room' = room\<lparr>Users := (Users room)(userID \<mapsto> user)\<rparr>
                in (Inr room', s\<lparr>Rooms := (Rooms s)(roomID \<mapsto> room')\<rparr>))))"

definition LeaveRoom :: "RTCService \<Rightarrow> string \<Rightarrow> string \<Rightarrow> error option \<times> RTCService" where
  "LeaveRoom s roomID userID =
     (case Rooms s roomID of
        None \<Rightarrow> (Some (RoomNotFound roomID), s)
      | Some room \<Rightarrow>
          (case Users room userID of
             None \<Rightarrow> (Some (ParticipantNotInRoom userID roomID), s)
           | Some _ \<Rightarrow>
               (let room' = room\<lparr>Users := (Users room)(userID := None)\<rparr>
                in (None, s\<lparr>Rooms := (Rooms s)(roomID \<mapsto> room')\<rparr>))))"

definition GetRoom :: "RTCService \<Rightarrow> string \<Rightarrow> (error + Room) \<times> RTCService" where
  "GetRoom s roomID =
     (case Rooms s roomID of
        None \<Rightarrow> (Inl (RoomNotFound roomID), s)
      | Some room \<Rightarrow> (Inr room, s))"

subsection \<open>Relaying a message\<close>

text \<open>
  \<^verbatim>\<open>Conn.WriteMessage(messageType, data)\<close> belongs to the websocket library. A call of it
  is recorded as a \<open>write_call\<close>; whether it returns an error is not decided by this package,
  so it is a parameter: a \<open>writer\<close> maps the calls made so far and the present call to
  the text of the error returned, or to \<open>None\<close> for \<^verbatim>\<open>nil\<close>. The message types are
  the library's constants (the opcodes of RFC 6455).
\<close>

record write_call =
  w_conn :: conn
  w_type :: int
  w_data :: "byte list"

type_synonym writer = "write_call list \<Rightarrow> write_call \<Rightarrow> string option"

definition TextMessage :: int where
  "TextMessage = 1"

definition BinaryMessage :: int where
  "BinaryMessage = 2"

text \<open>
  Go visits the keys of a map in an order it does not specify. The order of one
  \<^verbatim>\<open>range room.Users\<close> is the parameter \<open>order\<close>, a list of the keys of the map;
  \<open>range_Users\<close> is the sequence of pairs the loop sees.
\<close>

definition range_Users :: "Room \<Rightarrow> string list \<Rightarrow> (string \<times> User) list" where
  "range_Users room order = List.map_filter (\<lambda>k. map_option (Pair k) (Users room k)) order"

definition key_order :: "Room \<Rightarrow> string list \<Rightarrow> bool" where
  "key_order room order = (distinct order \<and> set order = dom (Users room))"

text \<open>
  The body of the loop of \<^verbatim>\<open>SignalMessage\<close>, with the loop's variables
  \<^verbatim>\<open>sendErrors\<close> and the calls of \<^verbatim>\<open>WriteMessage\<close> made so far as its state. The
  line that \<^verbatim>\<open>SignalMessage\<close> prints on standard output before the loop is left out: it
  touches neither the registry nor a connection.
\<close>

fun broadcast ::
  "writer \<Rightarrow> string \<Rightarrow> string \<Rightarrow> byte list \<Rightarrow> (string \<times> User) list \<Rightarrow>
   error list \<times> write_call list \<Rightarrow> error list \<times> write_call list" where
  "broadcast wm roomID senderID message [] st = st"
| "broadcast wm roomID senderID message ((userID, user) # rest) (sendErrors, writes) =
     (if userID \<noteq> senderID then
        (case Conn user of
           Some c \<Rightarrow>
             (let w = \<lparr>w_conn = c, w_type = TextMessage, w_data = message\<rparr> in
              (case wm writes w of
                 Some err \<Rightarrow>
                   broadcast wm roomID senderID message rest
                     (sendErrors @ [SendFailed userID roomID err], writes @ [w])
               | None \<Rightarrow>
                   broadcast wm roomID senderID message rest (sendErrors, writes @ [w])))
         | None \<Rightarrow> broadcast wm roomID senderID message rest (sendErrors, writes))
      else broadcast wm roomID senderID message rest (sendErrors, writes))"

definition SignalMessage ::
  "writer \<Rightarrow> string list \<Rightarrow> RTCService \<Rightarrow> string \<Rightarrow> string \<Rightarrow> byte list \<Rightarrow> write_call list \<Rightarrow>
   (error option \<times> write_call list) \<times> RTCService" where
  "SignalMessage wm order s roomID senderID message writes =
     (case Rooms s roomID of
        None \<Rightarrow> ((Some (RoomNotFound roomID), writes), s)
      | Some room \<Rightarrow>
          (case broadcast wm roomID senderID message (range_Users room order) ([], writes) of
             (sendErrors, writes') \<Rightarrow>
               if length sendErrors > 0
               then ((Some (DeliveryFailure sendErrors), writes'), s)
               else ((None, writes'), s)))"

subsection \<open>The connection handler\<close>

text \<open>
  \<^verbatim>\<open>defaultHandler\<close> joins the room with the connection, then reads frames until a
  read fails and leaves the room. \<open>defaultHandler_frame\<close> is one pass of its loop
  after a successful \<^verbatim>\<open>ReadMessage\<close>: the frame \<open>(mt, msg)\<close> read from the connection
  of \<open>userID\<close> is handed to \<^verbatim>\<open>SignalMessage(roomID, userID, msg)\<close>, whose error is
  logged and dropped. The message type \<open>mt\<close> is logged and not used again.
\<close>

definition defaultHandler_frame ::
  "writer \<Rightarrow> string list \<Rightarrow> RTCService \<Rightarrow> string \<Rightarrow> string \<Rightarrow> int \<times> byte list \<Rightarrow>
   write_call list \<Rightarrow> write_call list \<times> RTCService" where
  "defaultHandler_frame wm order rtcService roomID userID frame writes =
     (case frame of
        (mt, msg) \<Rightarrow>
          (case SignalMessage wm order rtcService roomID userID msg writes of
             ((err, writes'), rtcService') \<Rightarrow> (writes', rtcService')))"

subsection \<open>Notions of the specification\<close>

text \<open>
  The state of a participant within a room (\<open>joined\<close> or absent), the consistency of
  keys and identifiers, and the states of the registry that sequences of calls can
  reach from a fresh service. The \<open>svc\<close> states are those of the end-to-end
  scenario of the specification: room \<^verbatim>\<open>r1\<close>, then users \<^verbatim>\<open>u1\<close> and \<^verbatim>\<open>u2\<close> joined
  on connections 1 and 2.
\<close>

definition joined :: "RTCService \<Rightarrow> string \<Rightarrow> string \<Rightarrow> bool" where
  "joined s roomID userID =
     (case Rooms s roomID of None \<Rightarrow> False | Some room \<Rightarrow> Users room userID \<noteq> None)"

definition ids_consistent :: "RTCService \<Rightarrow> bool" where
  "ids_consistent s =
     (\<forall>r room. Rooms s r = Some room \<longrightarrow>
        Room.ID room = r \<and> (\<forall>p u. Users room p = Some u \<longrightarrow> User.ID u = p))"

inductive reachable :: "RTCService \<Rightarrow> bool" where
  init: "reachable NewRTCService"
| create: "reachable s \<Longrightarrow> reachable (snd (CreateRoom s roomID))"
| join: "reachable s \<Longrightarrow> reachable (snd (JoinRoom s roomID userID c))"
| leave: "reachable s \<Longrightarrow> reachable (snd (LeaveRoom s roomID userID))"
| get: "reachable s \<Longrightarrow> reachable (snd (GetRoom s roomID))"
| signal: "reachable s \<Longrightarrow>
     reachable (snd (SignalMessage wm order s roomID senderID message writes))"

definition svc_r1 :: RTCService where
  "svc_r1 = snd (CreateRoom NewRTCService ''r1'')"

definition svc_u1 :: RTCService where
  "svc_u1 = snd (JoinRoom svc_r1 ''r1'' ''u1'' (Some 1))"

definition svc_u2 :: RTCService where
  "svc_u2 = snd (JoinRoom svc_u1 ''r1'' ''u2'' (Some 2))"

text \<open>
  For the relay: \<open>text_write\<close> is the call \<^verbatim>\<open>WriteMessage(websocket.TextMessage, message)\<close>
  on a connection; \<open>recipients\<close> lists, in the order of the visit, the participants
  other than the sender that hold a connection, with that connection; \<open>failures\<close>
  lists the errors of a pass that writes to every recipient in turn. \<open>key_order\<close>
  above says that a list is a visiting order of a room's users: each key once.
\<close>

definition text_write :: "byte list \<Rightarrow> conn \<Rightarrow> write_call" where
  "text_write message c = \<lparr>w_conn = c, w_type = TextMessage, w_data = message\<rparr>"

fun recipients :: "string \<Rightarrow> (string \<times> User) list \<Rightarrow> (string \<times> conn) list" where
  "recipients senderID [] = []"
| "recipients senderID ((userID, user) # rest) =
     (case Conn user of
        Some c \<Rightarrow>
          if userID \<noteq> senderID then (userID, c) # recipients senderID rest
          else recipients senderID rest
      | None \<Rightarrow> recipients senderID rest)"

fun failures ::
  "writer \<Rightarrow> string \<Rightarrow> byte list \<Rightarrow> write_call list \<Rightarrow> (string \<times> conn) list \<Rightarrow> error list" where
  "failures wm roomID message writes [] = []"
| "failures wm roomID message writes ((userID, c) # rest) =
     (case wm writes (text_write message c) of
        Some err \<Rightarrow> [SendFailed userID roomID err]
      | None \<Rightarrow> []) @
     failures wm roomID message (writes @ [text_write message c]) rest"

text \<open>
  Further states for the examples: a third user on connection 3; users joined through
  the REST handler, which passes a \<^verbatim>\<open>nil\<close> connection. \<open>write_ok\<close> is a writer that
  never fails, \<open>write_closed c\<close> one that fails on connection \<open>c\<close>; \<open>hello\<close> is the
  payload \<^verbatim>\<open>[]byte("hello")\<close>.
\<close>

definition svc_u3 :: RTCService where
  "svc_u3 = snd (JoinRoom svc_u2 ''r1'' ''u3'' (Some 3))"

definition svc_rest :: RTCService where
  "svc_rest = snd (JoinRoom svc_u1 ''r1'' ''u2'' None)"

definition svc_rest3 :: RTCService where
  "svc_rest3 = snd (JoinRoom svc_rest ''r1'' ''u3'' (Some 3))"

definition write_ok :: writer where
  "write_ok writes w = None"

definition write_closed :: "conn \<Rightarrow> writer" where
  "write_closed c writes w = (if w_conn w = c then Some ''use of closed network connection'' else None)"

definition hello :: "byte list" where
  "hello = [104, 101, 108, 108, 111]"

section \<open>Properties\<close>

subsection \<open>The branches of the operations\<close>

lemma CreateRoom_registered:
  "Rooms s roomID = Some room \<Longrightarrow> CreateRoom s roomID = (Inl (RoomAlreadyExists roomID), s)"
  by (simp add: CreateRoom_def)

lemma CreateRoom_fresh:
  "Rooms s roomID = None \<Longrightarrow>
   CreateRoom s roomID =
     (Inr \<lparr>Room.ID = roomID, Users = Map.empty\<rparr>,
      s\<lparr>Rooms := (Rooms s)(roomID \<mapsto> \<lparr>Room.ID = roomID, Users = Map.empty\<rparr>)\<rparr>)"
  by (simp add: CreateRoom_def Let_def)

lemma JoinRoom_no_room:
  "Rooms s roomID = None \<Longrightarrow> JoinRoom s roomID userID c = (Inl (RoomNotFound roomID), s)"
  by (simp add: JoinRoom_def)

lemma JoinRoom_member:
  "Rooms s roomID = Some room \<Longrightarrow> Users room userID = Some u \<Longrightarrow>
   JoinRoom s roomID userID c = (Inl (ParticipantAlreadyInRoom userID roomID), s)"
  by (simp add: JoinRoom_def)

lemma JoinRoom_absent:
  "Rooms s roomID = Some room \<Longrightarrow> Users room userID = None \<Longrightarrow>
   JoinRoom s roomID userID c =
     (Inr (room\<lparr>Users := (Users room)(userID \<mapsto> \<lparr>User.ID = userID, Conn = c\<rparr>)\<rparr>),
      s\<lparr>Rooms := (Rooms s)(roomID \<mapsto>
           room\<lparr>Users := (Users room)(userID \<mapsto> \<lparr>User.ID = userID, Conn = c\<rparr>)\<rparr>)\<rparr>)"
  by (simp add: JoinRoom_def Let_def)

lemma LeaveRoom_no_room:
  "Rooms s roomID = None \<Longrightarrow> LeaveRoom s roomID userID = (Some (RoomNotFound roomID), s)"
  by (simp add: LeaveRoom_def)

lemma LeaveRoom_absent:
  "Rooms s roomID = Some room \<Longrightarrow> Users room userID = None \<Longrightarrow>
   LeaveRoom s roomID userID = (Some (ParticipantNotInRoom userID roomID), s)"
  by (simp add: LeaveRoom_def)

lemma LeaveRoom_member:
  "Rooms s roomID = Some room \<Longrightarrow> Users room userID = Some u \<Longrightarrow>
   LeaveRoom s roomID userID =
     (None, s\<lparr>Rooms := (Rooms s)(roomID \<mapsto> room\<lparr>Users := (Users room)(userID := None)\<rparr>)\<rparr>)"
  by (simp add: LeaveRoom_def Let_def)

lemma SignalMessage_snd: "snd (SignalMessage wm order s roomID senderID message writes) = s"
  by (simp add: SignalMessage_def split: option.split prod.split)

lemma svc_r1_Rooms:
  "Rooms svc_r1 = [''r1'' \<mapsto> \<lparr>Room.ID = ''r1'', Users = Map.empty\<rparr>]"
  by (simp add: svc_r1_def NewRTCService_def CreateRoom_def Let_def)

lemma svc_u1_Rooms:
  "Rooms svc_u1 =
     [''r1'' \<mapsto> \<lparr>Room.ID = ''r1'', Users = [''u1'' \<mapsto> \<lparr>User.ID = ''u1'', Conn = Some 1\<rparr>]\<rparr>]"
  by (simp add: svc_u1_def JoinRoom_def svc_r1_Rooms Let_def)

lemma svc_u2_Rooms:
  "Rooms svc_u2 =
     [''r1'' \<mapsto> \<lparr>Room.ID = ''r1'',
        Users = [''u1'' \<mapsto> \<lparr>User.ID = ''u1'', Conn = Some 1\<rparr>,
                 ''u2'' \<mapsto> \<lparr>User.ID = ''u2'', Conn = Some 2\<rparr>]\<rparr>]"
  by (simp add: svc_u2_def JoinRoom_def svc_u1_Rooms Let_def)

lemma joined_CreateRoom: "joined (snd (CreateRoom s r')) r p = joined s r p"
  by (simp add: joined_def CreateRoom_def Let_def split: option.splits)

lemma joined_GetRoom: "joined (snd (GetRoom s r')) r p = joined s r p"
  by (simp add: GetRoom_def split: option.splits)

lemma joined_JoinRoom:
  "joined (snd (JoinRoom s r' p' c)) r p =
     (joined s r p \<or> (r' = r \<and> p' = p \<and> Rooms s r \<noteq> None))"
  by (auto simp: joined_def JoinRoom_def Let_def split: option.splits)

lemma joined_LeaveRoom:
  "joined (snd (LeaveRoom s r' p')) r p = (joined s r p \<and> \<not> (r' = r \<and> p' = p))"
  by (auto simp: joined_def LeaveRoom_def Let_def split: option.splits)

lemma JoinRoom_succeeds_iff:
  "(\<exists>room. fst (JoinRoom s r p c) = Inr room) = (Rooms s r \<noteq> None \<and> \<not> joined s r p)"
  by (auto simp: joined_def JoinRoom_def Let_def split: option.splits)

lemma LeaveRoom_succeeds_iff:
  "(fst (LeaveRoom s r p) = None) = joined s r p"
  by (auto simp: joined_def LeaveRoom_def Let_def split: option.splits)

lemma join_leave_sequence:
  assumes r: "Rooms s roomID = Some room" and a: "\<not> joined s roomID userID"
  shows "\<exists>room1 s1.
           JoinRoom s roomID userID c = (Inr room1, s1) \<and> joined s1 roomID userID \<and>
           JoinRoom s1 roomID userID c = (Inl (ParticipantAlreadyInRoom userID roomID), s1) \<and>
           LeaveRoom s1 roomID userID = (None, s) \<and>
           LeaveRoom s roomID userID = (Some (ParticipantNotInRoom userID roomID), s)"
proof -
  from r a have u: "Users room userID = None"
    by (simp add: joined_def)
  let ?user = "\<lparr>User.ID = userID, Conn = c\<rparr>"
  let ?room1 = "room\<lparr>Users := (Users room)(userID \<mapsto> ?user)\<rparr>"
  let ?s1 = "s\<lparr>Rooms := (Rooms s)(roomID \<mapsto> ?room1)\<rparr>"
  have j: "JoinRoom s roomID userID c = (Inr ?room1, ?s1)"
    using r u by (rule JoinRoom_absent)
  have r1: "Rooms ?s1 roomID = Some ?room1" and u1: "Users ?room1 userID = Some ?user"
    by simp_all
  have undo: "(Users room)(userID := None) = Users room"
    using u by (simp add: fun_upd_idem)
  have "?s1\<lparr>Rooms := (Rooms ?s1)(roomID \<mapsto> ?room1\<lparr>Users := (Users ?room1)(userID := None)\<rparr>)\<rparr> = s"
    using r by (simp add: undo map_upd_triv)
  then have l: "LeaveRoom ?s1 roomID userID = (None, s)"
    using LeaveRoom_member [OF r1 u1] by simp
  have "joined ?s1 roomID userID"
    by (simp add: joined_def)
  moreover have "JoinRoom ?s1 roomID userID c = (Inl (ParticipantAlreadyInRoom userID roomID), ?s1)"
    using r1 u1 by (rule JoinRoom_member)
  moreover have "LeaveRoom s roomID userID = (Some (ParticipantNotInRoom userID roomID), s)"
    using r u by (rule LeaveRoom_absent)
  ultimately show ?thesis
    using j l by blast
qed

lemma ids_consistent_New: "ids_consistent NewRTCService"
  by (simp add: ids_consistent_def NewRTCService_def)

lemma ids_consistent_CreateRoom:
  "ids_consistent s \<Longrightarrow> ids_consistent (snd (CreateRoom s roomID))"
  by (auto simp: ids_consistent_def CreateRoom_def Let_def split: option.splits if_splits)

lemma ids_consistent_JoinRoom:
  "ids_consistent s \<Longrightarrow> ids_consistent (snd (JoinRoom s roomID userID c))"
  by (auto simp: ids_consistent_def JoinRoom_def Let_def split: option.splits if_splits)

lemma ids_consistent_LeaveRoom:
  "ids_consistent s \<Longrightarrow> ids_consistent (snd (LeaveRoom s roomID userID))"
  by (auto simp: ids_consistent_def LeaveRoom_def Let_def split: option.splits if_splits)

lemma ids_consistent_GetRoom:
  "ids_consistent s \<Longrightarrow> ids_consistent (snd (GetRoom s roomID))"
  by (simp add: GetRoom_def split: option.splits)

lemma reachable_ids_consistent: "reachable s \<Longrightarrow> ids_consistent s"
proof (induction rule: reachable.induct)
  case init
  show ?case by (rule ids_consistent_New)
next
  case (create s roomID)
  then show ?case by (simp add: ids_consistent_CreateRoom)
next
  case (join s roomID userID c)
  then show ?case by (simp add: ids_consistent_JoinRoom)
next
  case (leave s roomID userID)
  then show ?case by (simp add: ids_consistent_LeaveRoom)
next
  case (get s roomID)
  then show ?case by (simp add: ids_consistent_GetRoom)
next
  case (signal s wm order roomID senderID message writes)
  then show ?case by (simp add: SignalMessage_snd)
qed

subsection \<open>The loop of SignalMessage\<close>

lemma svc_u3_Rooms:
  "Rooms svc_u3 =
     [''r1'' \<mapsto> \<lparr>Room.ID = ''r1'',
        Users = [''u1'' \<mapsto> \<lparr>User.ID = ''u1'', Conn = Some 1\<rparr>,
                 ''u2'' \<mapsto> \<lparr>User.ID = ''u2'', Conn = Some 2\<rparr>,
                 ''u3'' \<mapsto> \<lparr>User.ID = ''u3'', Conn = Some 3\<rparr>]\<rparr>]"
  by (simp add: svc_u3_def JoinRoom_def svc_u2_Rooms Let_def)

lemma svc_rest_Rooms:
  "Rooms svc_rest =
     [''r1'' \<mapsto> \<lparr>Room.ID = ''r1'',
        Users = [''u1'' \<mapsto> \<lparr>User.ID = ''u1'', Conn = Some 1\<rparr>,
                 ''u2'' \<mapsto> \<lparr>User.ID = ''u2'', Conn = None\<rparr>]\<rparr>]"
  by (simp add: svc_rest_def JoinRoom_def svc_u1_Rooms Let_def)

lemma svc_rest3_Rooms:
  "Rooms svc_rest3 =
     [''r1'' \<mapsto> \<lparr>Room.ID = ''r1'',
        Users = [''u1'' \<mapsto> \<lparr>User.ID = ''u1'', Conn = Some 1\<rparr>,
                 ''u2'' \<mapsto> \<lparr>User.ID = ''u2'', Conn = None\<rparr>,
                 ''u3'' \<mapsto> \<lparr>User.ID = ''u3'', Conn = Some 3\<rparr>]\<rparr>]"
  by (simp add: svc_rest3_def JoinRoom_def svc_rest_Rooms Let_def)

lemma broadcast_eq:
  "broadcast wm roomID senderID message pairs (sendErrors, writes) =
     (sendErrors @ failures wm roomID message writes (recipients senderID pairs),
      writes @ map (text_write message \<circ> snd) (recipients senderID pairs))"
proof (induction pairs arbitrary: sendErrors writes)
  case Nil
  show ?case by simp
next
  case (Cons a pairs)
  obtain userID user where a: "a = (userID, user)"
    by (cases a)
  show ?case
    unfolding a by (simp add: Cons.IH text_write_def Let_def split: option.split)
qed

lemma SignalMessage_registered:
  assumes "Rooms s roomID = Some room"
  shows "SignalMessage wm order s roomID senderID message writes =
     ((if failures wm roomID message writes (recipients senderID (range_Users room order)) = []
       then None
       else Some (DeliveryFailure
              (failures wm roomID message writes (recipients senderID (range_Users room order)))),
       writes @ map (text_write message \<circ> snd) (recipients senderID (range_Users room order))),
      s)"
  using assms by (simp add: SignalMessage_def broadcast_eq)

lemma SignalMessage_outcome:
  assumes "Rooms s roomID = Some room"
  shows "fst (fst (SignalMessage wm order s roomID senderID message writes)) = None \<or>
         (\<exists>errs. fst (fst (SignalMessage wm order s roomID senderID message writes)) =
            Some (DeliveryFailure errs))"
  using assms by (simp add: SignalMessage_registered)

lemma set_range_Users:
  "set (range_Users room order) = {(k, u). k \<in> set order \<and> Users room k = Some u}"
  unfolding range_Users_def by (induction order) (auto split: option.splits)

lemma map_fst_range_Users:
  "map fst (range_Users room order) = filter (\<lambda>k. Users room k \<noteq> None) order"
  unfolding range_Users_def by (induction order) (auto split: option.splits)

lemma set_recipients:
  "set (recipients senderID pairs) =
     {(p, c). p \<noteq> senderID \<and> (\<exists>u. (p, u) \<in> set pairs \<and> Conn u = Some c)}"
  by (induction senderID pairs rule: recipients.induct) (auto split: option.splits)

lemma distinct_recipients:
  "distinct (map fst pairs) \<Longrightarrow> distinct (map fst (recipients senderID pairs))"
  by (induction senderID pairs rule: recipients.induct)
     (force simp: set_recipients split: option.splits)+

lemma recipients_key_order:
  assumes "key_order room order"
  shows "distinct (map fst (recipients senderID (range_Users room order)))"
    and "set (recipients senderID (range_Users room order)) =
           {(p, c). p \<noteq> senderID \<and> (\<exists>u. Users room p = Some u \<and> Conn u = Some c)}"
proof -
  from assms have d: "distinct order" and k: "set order = dom (Users room)"
    by (simp_all add: key_order_def)
  from d show "distinct (map fst (recipients senderID (range_Users room order)))"
    by (intro distinct_recipients) (simp add: map_fst_range_Users)
  from k show "set (recipients senderID (range_Users room order)) =
      {(p, c). p \<noteq> senderID \<and> (\<exists>u. Users room p = Some u \<and> Conn u = Some c)}"
    by (auto simp: set_recipients set_range_Users)
qed

lemma recipients_sole:
  assumes "key_order room order" and "dom (Users room) \<subseteq> {senderID}"
  shows "recipients senderID (range_Users room order) = []"
proof -
  have "set (recipients senderID (range_Users room order)) = {}"
    using assms(2) by (auto simp: recipients_key_order(2) [OF assms(1)])
  then show ?thesis by simp
qed

lemma set_failures:
  "set (failures wm roomID message writes rcp) =
     {SendFailed (fst (rcp ! i)) roomID e | i e.
        i < length rcp \<and>
        wm (writes @ take i (map (text_write message \<circ> snd) rcp))
           (map (text_write message \<circ> snd) rcp ! i) = Some e}"
proof (induction rcp arbitrary: writes)
  case Nil
  show ?case by simp
next
  case (Cons a rcp)
  obtain p c where a: "a = (p, c)"
    by (cases a)
  let ?w = "text_write message c"
  let ?ws = "map (text_write message \<circ> snd) rcp"
  have split: "{SendFailed (fst (((p, c) # rcp) ! i)) roomID e | i e.
        i < length ((p, c) # rcp) \<and>
        wm (writes @ take i (?w # ?ws)) ((?w # ?ws) ! i) = Some e} =
      {SendFailed p roomID e | e. wm writes ?w = Some e} \<union>
      {SendFailed (fst (rcp ! j)) roomID e | j e.
        j < length rcp \<and> wm ((writes @ [?w]) @ take j ?ws) (?ws ! j) = Some e}"
    (is "?L = ?A \<union> ?B")
  proof (intro set_eqI iffI)
    fix x assume "x \<in> ?L"
    then obtain i e where x: "x = SendFailed (fst (((p, c) # rcp) ! i)) roomID e"
      and i: "i < length ((p, c) # rcp)"
      and w: "wm (writes @ take i (?w # ?ws)) ((?w # ?ws) ! i) = Some e"
      by blast
    show "x \<in> ?A \<union> ?B"
    proof (cases i)
      case 0
      with x w show ?thesis by simp
    next
      case (Suc j)
      with x i w have "x \<in> ?B" by auto
      then show ?thesis ..
    qed
  next
    fix x assume "x \<in> ?A \<union> ?B"
    then show "x \<in> ?L"
    proof
      assume "x \<in> ?A"
      then obtain e where "x = SendFailed p roomID e" "wm writes ?w = Some e"
        by blast
      then have "x = SendFailed (fst (((p, c) # rcp) ! 0)) roomID e \<and>
          0 < length ((p, c) # rcp) \<and>
          wm (writes @ take 0 (?w # ?ws)) ((?w # ?ws) ! 0) = Some e"
        by simp
      then show ?thesis by blast
    next
      assume "x \<in> ?B"
      then obtain j e where "x = SendFailed (fst (rcp ! j)) roomID e" "j < length rcp"
        "wm ((writes @ [?w]) @ take j ?ws) (?ws ! j) = Some e"
        by blast
      then have "x = SendFailed (fst (((p, c) # rcp) ! Suc j)) roomID e \<and>
          Suc j < length ((p, c) # rcp) \<and>
          wm (writes @ take (Suc j) (?w # ?ws)) ((?w # ?ws) ! Suc j) = Some e"
        by simp
      then show ?thesis by blast
    qed
  qed
  have B: "set (failures wm roomID message (writes @ [?w]) rcp) = ?B"
    by (rule Cons.IH)
  have A: "set (case wm writes ?w of Some err \<Rightarrow> [SendFailed p roomID err] | None \<Rightarrow> []) = ?A"
    by (auto split: option.splits)
  have "set (failures wm roomID message writes ((p, c) # rcp)) = ?A \<union> ?B"
    by (simp only: failures.simps set_append A B)
  then have "set (failures wm roomID message writes ((p, c) # rcp)) = ?L"
    by (simp only: split)
  moreover have "map (text_write message \<circ> snd) ((p, c) # rcp) = ?w # ?ws"
    by simp
  ultimately show ?case
    unfolding a by (simp only:)
qed

lemma writes_only_to_recipients:
  assumes "Rooms s roomID = Some room" and "key_order room order"
    and "\<forall>p u. Users room p = Some u \<and> p \<noteq> senderID \<longrightarrow> Conn u \<noteq> Some c"
  shows "c \<notin> w_conn ` set (drop (length writes)
           (snd (fst (SignalMessage wm order s roomID senderID message writes))))"
proof
  let ?rcp = "recipients senderID (range_Users room order)"
  assume "c \<in> w_conn ` set (drop (length writes)
      (snd (fst (SignalMessage wm order s roomID senderID message writes))))"
  then have "c \<in> w_conn ` set (map (text_write message \<circ> snd) ?rcp)"
    using assms(1) by (simp add: SignalMessage_registered)
  then obtain p where "(p, c) \<in> set ?rcp"
    by (auto simp: text_write_def)
  then have "p \<noteq> senderID \<and> (\<exists>u. Users room p = Some u \<and> Conn u = Some c)"
    unfolding recipients_key_order(2) [OF assms(2)] by simp
  with assms(3) show False
    by blast
qed

subsection \<open>Empty rooms persist\<close>

text \<open>
  C4. When \<^verbatim>\<open>LeaveRoom\<close> removes the only participant of a registered room, the call
  succeeds, the room stays registered with no participants (\<^verbatim>\<open>GetRoom\<close> returns it),
  and \<^verbatim>\<open>CreateRoom\<close> on the same identifier fails with \<open>RoomAlreadyExists\<close>, leaving
  the registry as it is.
\<close>

theorem LeaveRoom_last_keeps_room:
  assumes "Rooms s roomID = Some room" and "dom (Users room) = {userID}"
  shows "case LeaveRoom s roomID userID of
           (err, s') \<Rightarrow>
             err = None \<and>
             GetRoom s' roomID = (Inr (room\<lparr>Users := Map.empty\<rparr>), s') \<and>
             CreateRoom s' roomID = (Inl (RoomAlreadyExists roomID), s')"
proof -
  from assms(2) obtain u where u: "Users room userID = Some u"
    by blast
  have "(Users room)(userID := None) = Map.empty"
  proof
    fix k
    show "((Users room)(userID := None)) k = None"
      using assms(2) by (cases "k = userID") (auto simp: dom_def)
  qed
  then show ?thesis
    using assms(1) u by (simp add: LeaveRoom_member GetRoom_def CreateRoom_def)
qed

theorem LeaveRoom_last_keeps_room_witness:
  "Rooms svc_u1 ''r1'' = Some \<lparr>Room.ID = ''r1'', Users = [''u1'' \<mapsto> \<lparr>User.ID = ''u1'', Conn = Some 1\<rparr>]\<rparr> \<and>
   fst (LeaveRoom svc_u1 ''r1'' ''u1'') = None \<and>
   fst (GetRoom (snd (LeaveRoom svc_u1 ''r1'' ''u1'')) ''r1'') =
     Inr \<lparr>Room.ID = ''r1'', Users = Map.empty\<rparr> \<and>
   fst (CreateRoom (snd (LeaveRoom svc_u1 ''r1'' ''u1'')) ''r1'') =
     Inl (RoomAlreadyExists ''r1'')"
proof -
  have r: "Rooms svc_u1 ''r1'' =
      Some \<lparr>Room.ID = ''r1'', Users = [''u1'' \<mapsto> \<lparr>User.ID = ''u1'', Conn = Some 1\<rparr>]\<rparr>"
    by (simp add: svc_u1_def svc_r1_def NewRTCService_def CreateRoom_def JoinRoom_def Let_def)
  have d: "dom (Users \<lparr>Room.ID = ''r1'', Users = [''u1'' \<mapsto> \<lparr>User.ID = ''u1'', Conn = Some 1\<rparr>]\<rparr>) = {''u1''}"
    by simp
  show ?thesis
    using LeaveRoom_last_keeps_room [OF r d] r by (simp split: prod.splits)
qed

subsection \<open>Creating a room twice\<close>

text \<open>
  C5. For every room identifier, a second \<^verbatim>\<open>CreateRoom\<close> right after a first one fails
  with \<open>RoomAlreadyExists\<close> and returns the registry as it was (so the room's
  participants and every other room are untouched); a \<^verbatim>\<open>CreateRoom\<close> that succeeds
  returns and registers a room with no participants. More generally, \<^verbatim>\<open>CreateRoom\<close>
  on any registered identifier fails and changes nothing.
\<close>

theorem CreateRoom_twice:
  "(case CreateRoom s roomID of
      (res1, s1) \<Rightarrow>
        CreateRoom s1 roomID = (Inl (RoomAlreadyExists roomID), s1) \<and>
        (\<forall>room. res1 = Inr room \<longrightarrow>
           Users room = Map.empty \<and> Rooms s1 roomID = Some room)) \<and>
   (\<forall>room. Rooms s roomID = Some room \<longrightarrow>
      CreateRoom s roomID = (Inl (RoomAlreadyExists roomID), s))"
proof (cases "Rooms s roomID")
  case None
  then show ?thesis
    by (simp add: CreateRoom_fresh CreateRoom_registered)
next
  case (Some room)
  then show ?thesis
    by (simp add: CreateRoom_registered)
qed

theorem CreateRoom_twice_witness:
  "CreateRoom NewRTCService ''r1'' = (Inr \<lparr>Room.ID = ''r1'', Users = Map.empty\<rparr>, svc_r1) \<and>
   CreateRoom svc_r1 ''r1'' = (Inl (RoomAlreadyExists ''r1''), svc_r1) \<and>
   Rooms svc_r1 ''r1'' = Some \<lparr>Room.ID = ''r1'', Users = Map.empty\<rparr> \<and>
   Rooms svc_u1 ''r1'' =
     Some \<lparr>Room.ID = ''r1'', Users = [''u1'' \<mapsto> \<lparr>User.ID = ''u1'', Conn = Some 1\<rparr>]\<rparr> \<and>
   CreateRoom svc_u1 ''r1'' = (Inl (RoomAlreadyExists ''r1''), svc_u1)"
proof -
  have a: "CreateRoom NewRTCService ''r1'' =
      (Inr \<lparr>Room.ID = ''r1'', Users = Map.empty\<rparr>, svc_r1)"
    by (simp add: svc_r1_def NewRTCService_def CreateRoom_def Let_def)
  show ?thesis
    using CreateRoom_twice [where s = NewRTCService and roomID = "''r1''"]
      CreateRoom_twice [where s = svc_u1 and roomID = "''r1''"]
    by (simp add: a svc_u1_Rooms)
qed

subsection \<open>Joining needs the room\<close>

text \<open>
  C6. \<^verbatim>\<open>JoinRoom\<close> on an identifier that is not registered fails with \<open>RoomNotFound\<close>
  and returns the registry unchanged (the room is not created). After
  \<^verbatim>\<open>CreateRoom\<close> of that identifier the same call succeeds, and \<^verbatim>\<open>GetRoom\<close> returns
  the room with the participant stored under its identifier with the handle given.
\<close>

theorem JoinRoom_needs_room:
  assumes "Rooms s roomID = None"
  shows "JoinRoom s roomID userID c = (Inl (RoomNotFound roomID), s) \<and>
         (case CreateRoom s roomID of
            (res1, s1) \<Rightarrow>
              (case JoinRoom s1 roomID userID c of
                 (res2, s2) \<Rightarrow>
                   res2 = Inr \<lparr>Room.ID = roomID,
                              Users = [userID \<mapsto> \<lparr>User.ID = userID, Conn = c\<rparr>]\<rparr> \<and>
                   GetRoom s2 roomID = (res2, s2)))"
  using assms
  by (simp add: JoinRoom_no_room CreateRoom_fresh JoinRoom_def GetRoom_def Let_def)

theorem JoinRoom_needs_room_witness:
  "Rooms NewRTCService ''r1'' = None \<and>
   JoinRoom NewRTCService ''r1'' ''u1'' (Some 1) = (Inl (RoomNotFound ''r1''), NewRTCService) \<and>
   fst (JoinRoom svc_r1 ''r1'' ''u1'' (Some 1)) =
     Inr \<lparr>Room.ID = ''r1'', Users = [''u1'' \<mapsto> \<lparr>User.ID = ''u1'', Conn = Some 1\<rparr>]\<rparr> \<and>
   fst (GetRoom svc_u1 ''r1'') =
     Inr \<lparr>Room.ID = ''r1'', Users = [''u1'' \<mapsto> \<lparr>User.ID = ''u1'', Conn = Some 1\<rparr>]\<rparr>"
proof -
  have n: "Rooms NewRTCService ''r1'' = None"
    by (simp add: NewRTCService_def)
  have c: "CreateRoom NewRTCService ''r1'' =
      (Inr \<lparr>Room.ID = ''r1'', Users = Map.empty\<rparr>, svc_r1)"
    by (simp add: svc_r1_def NewRTCService_def CreateRoom_def Let_def)
  have j: "snd (JoinRoom svc_r1 ''r1'' ''u1'' (Some 1)) = svc_u1"
    by (simp add: svc_u1_def)
  show ?thesis
    using JoinRoom_needs_room [OF n, of "''u1''" "Some 1"] n j
    by (simp add: c split: prod.splits)
qed

subsection \<open>Relaying leaves the registry alone\<close>

text \<open>
  C8. \<^verbatim>\<open>SignalMessage\<close> returns the registry it was given, whatever the room, the
  sender, the payload, the order of the visit and the outcome of the writes: the
  rooms, their participants and the participants' handles are the same before and
  after, also when deliveries fail.
\<close>

theorem SignalMessage_registry_unchanged:
  "snd (SignalMessage wm order s roomID senderID message writes) = s"
  by (simp add: SignalMessage_def split: option.split prod.split)

theorem SignalMessage_registry_unchanged_witness:
  "fst (fst (SignalMessage (write_closed 2) [''u1'', ''u2'', ''u3''] svc_u3 ''r1'' ''u1'' hello [])) =
     Some (DeliveryFailure [SendFailed ''u2'' ''r1'' ''use of closed network connection'']) \<and>
   snd (SignalMessage (write_closed 2) [''u1'', ''u2'', ''u3''] svc_u3 ''r1'' ''u1'' hello []) =
     svc_u3"
proof -
  have "fst (fst (SignalMessage (write_closed 2) [''u1'', ''u2'', ''u3''] svc_u3 ''r1'' ''u1''
      hello [])) =
      Some (DeliveryFailure [SendFailed ''u2'' ''r1'' ''use of closed network connection''])"
    by (simp add: SignalMessage_def svc_u3_Rooms range_Users_def write_closed_def)
  with SignalMessage_registry_unchanged [where wm = "write_closed 2"
      and order = "[''u1'', ''u2'', ''u3'']" and s = svc_u3 and roomID = "''r1''"
      and senderID = "''u1''" and message = hello and writes = "[]"]
  show ?thesis
    by (intro conjI)
qed

subsection \<open>The state machine of a participant\<close>

text \<open>
  C7. In a registered room, for a participant that is absent: \<^verbatim>\<open>JoinRoom\<close> succeeds
  and the participant is joined; \<^verbatim>\<open>JoinRoom\<close> again fails with
  \<open>ParticipantAlreadyInRoom\<close> and changes nothing; \<^verbatim>\<open>LeaveRoom\<close> then succeeds and
  gives back the registry from before the join; \<^verbatim>\<open>LeaveRoom\<close> again fails with
  \<open>ParticipantNotInRoom\<close> and changes nothing. These are the only transitions: after
  any \<^verbatim>\<open>JoinRoom\<close> a participant is joined exactly if it was before or the call was for
  it in its registered room; after any \<^verbatim>\<open>LeaveRoom\<close> exactly if it was before and the
  call was not for it; \<^verbatim>\<open>JoinRoom\<close> succeeds exactly from absent (in a registered
  room) and \<^verbatim>\<open>LeaveRoom\<close> exactly from joined; \<^verbatim>\<open>CreateRoom\<close>, \<^verbatim>\<open>GetRoom\<close> and
  \<^verbatim>\<open>SignalMessage\<close> never change whether a participant is joined.
\<close>

theorem participant_state_machine:
  "(\<forall>room. Rooms s roomID = Some room \<and> \<not> joined s roomID userID \<longrightarrow>
      (\<exists>room1 s1.
         JoinRoom s roomID userID c = (Inr room1, s1) \<and> joined s1 roomID userID \<and>
         JoinRoom s1 roomID userID c = (Inl (ParticipantAlreadyInRoom userID roomID), s1) \<and>
         LeaveRoom s1 roomID userID = (None, s) \<and>
         LeaveRoom s roomID userID = (Some (ParticipantNotInRoom userID roomID), s))) \<and>
   joined (snd (JoinRoom s r' p' c')) roomID userID =
     (joined s roomID userID \<or> (r' = roomID \<and> p' = userID \<and> Rooms s roomID \<noteq> None)) \<and>
   joined (snd (LeaveRoom s r' p')) roomID userID =
     (joined s roomID userID \<and> \<not> (r' = roomID \<and> p' = userID)) \<and>
   (\<exists>room1. fst (JoinRoom s r' p' c') = Inr room1) =
     (Rooms s r' \<noteq> None \<and> \<not> joined s r' p') \<and>
   (fst (LeaveRoom s r' p') = None) = joined s r' p' \<and>
   joined (snd (CreateRoom s r')) roomID userID = joined s roomID userID \<and>
   joined (snd (GetRoom s r')) roomID userID = joined s roomID userID \<and>
   joined (snd (SignalMessage wm order s r' p' message writes)) roomID userID =
     joined s roomID userID"
  using join_leave_sequence [of s roomID _ userID c]
  by (simp only: joined_JoinRoom joined_LeaveRoom JoinRoom_succeeds_iff LeaveRoom_succeeds_iff
        joined_CreateRoom joined_GetRoom SignalMessage_snd) blast

theorem participant_state_machine_witness:
  "Rooms svc_r1 ''r1'' = Some \<lparr>Room.ID = ''r1'', Users = Map.empty\<rparr> \<and>
   \<not> joined svc_r1 ''r1'' ''u1'' \<and>
   (\<exists>room1. JoinRoom svc_r1 ''r1'' ''u1'' (Some 1) = (Inr room1, svc_u1)) \<and>
   joined svc_u1 ''r1'' ''u1'' \<and>
   JoinRoom svc_u1 ''r1'' ''u1'' (Some 1) =
     (Inl (ParticipantAlreadyInRoom ''u1'' ''r1''), svc_u1) \<and>
   LeaveRoom svc_u1 ''r1'' ''u1'' = (None, svc_r1) \<and>
   LeaveRoom svc_r1 ''r1'' ''u1'' = (Some (ParticipantNotInRoom ''u1'' ''r1''), svc_r1)"
proof -
  have r: "Rooms svc_r1 ''r1'' = Some \<lparr>Room.ID = ''r1'', Users = Map.empty\<rparr>"
    by (simp add: svc_r1_Rooms)
  have a: "\<not> joined svc_r1 ''r1'' ''u1''"
    by (simp add: joined_def svc_r1_Rooms)
  have j: "snd (JoinRoom svc_r1 ''r1'' ''u1'' (Some 1)) = svc_u1"
    by (simp add: svc_u1_def)
  have "\<forall>room. Rooms svc_r1 ''r1'' = Some room \<and> \<not> joined svc_r1 ''r1'' ''u1'' \<longrightarrow>
      (\<exists>room1 s1.
         JoinRoom svc_r1 ''r1'' ''u1'' (Some 1) = (Inr room1, s1) \<and> joined s1 ''r1'' ''u1'' \<and>
         JoinRoom s1 ''r1'' ''u1'' (Some 1) = (Inl (ParticipantAlreadyInRoom ''u1'' ''r1''), s1) \<and>
         LeaveRoom s1 ''r1'' ''u1'' = (None, svc_r1) \<and>
         LeaveRoom svc_r1 ''r1'' ''u1'' = (Some (ParticipantNotInRoom ''u1'' ''r1''), svc_r1))"
    by (rule conjunct1 [OF participant_state_machine
          [where s = svc_r1 and roomID = "''r1''" and userID = "''u1''" and c = "Some 1"]])
  with r a obtain room1 s1 where
    m: "JoinRoom svc_r1 ''r1'' ''u1'' (Some 1) = (Inr room1, s1)" "joined s1 ''r1'' ''u1''"
      "JoinRoom s1 ''r1'' ''u1'' (Some 1) = (Inl (ParticipantAlreadyInRoom ''u1'' ''r1''), s1)"
      "LeaveRoom s1 ''r1'' ''u1'' = (None, svc_r1)"
      "LeaveRoom svc_r1 ''r1'' ''u1'' = (Some (ParticipantNotInRoom ''u1'' ''r1''), svc_r1)"
    by blast
  from m(1) j have "s1 = svc_u1"
    by simp
  with m r a show ?thesis
    by simp
qed

subsection \<open>Keys and identifiers agree\<close>

text \<open>
  C10. In every registry reachable from a fresh service by calls of \<^verbatim>\<open>CreateRoom\<close>,
  \<^verbatim>\<open>JoinRoom\<close>, \<^verbatim>\<open>LeaveRoom\<close>, \<^verbatim>\<open>GetRoom\<close> and \<^verbatim>\<open>SignalMessage\<close>, the room stored
  under a key has that key as its \<^verbatim>\<open>ID\<close>, and the user stored under a key within a
  room has that key as its \<^verbatim>\<open>ID\<close>. The fresh service has the property and every
  operation preserves it.
\<close>

theorem keys_match_identifiers:
  "(reachable s \<longrightarrow> ids_consistent s) \<and>
   ids_consistent NewRTCService \<and>
   (ids_consistent s \<longrightarrow>
      ids_consistent (snd (CreateRoom s roomID)) \<and>
      ids_consistent (snd (JoinRoom s roomID userID c)) \<and>
      ids_consistent (snd (LeaveRoom s roomID userID)) \<and>
      ids_consistent (snd (GetRoom s roomID)) \<and>
      ids_consistent (snd (SignalMessage wm order s roomID userID message writes)))"
  by (simp add: reachable_ids_consistent ids_consistent_New ids_consistent_CreateRoom
        ids_consistent_JoinRoom ids_consistent_LeaveRoom ids_consistent_GetRoom SignalMessage_snd)

theorem keys_match_identifiers_witness:
  "reachable svc_u1 \<and> ids_consistent svc_u1 \<and>
   Room.ID (the (Rooms svc_u1 ''r1'')) = ''r1'' \<and>
   User.ID (the (Users (the (Rooms svc_u1 ''r1'')) ''u1'')) = ''u1'' \<and>
   ids_consistent (snd (LeaveRoom svc_u1 ''r1'' ''u1''))"
proof -
  have r: "reachable svc_u1"
    unfolding svc_u1_def svc_r1_def by (intro reachable.join reachable.create reachable.init)
  have c: "ids_consistent svc_u1"
    using keys_match_identifiers [where s = svc_u1] r by blast
  have "ids_consistent (snd (LeaveRoom svc_u1 ''r1'' ''u1''))"
    using keys_match_identifiers [where s = svc_u1 and roomID = "''r1''" and userID = "''u1''"] c
    by blast
  then show ?thesis
    using r c by (simp add: svc_u1_Rooms)
qed

subsection \<open>Who is written to\<close>

text \<open>
  C1. \<^verbatim>\<open>SignalMessage\<close> on an unregistered room returns \<open>RoomNotFound\<close> and writes
  nothing. On a registered room, for every sender identifier (member or not), the calls
  of \<^verbatim>\<open>WriteMessage\<close> it makes are, in the order of the visit, one call per entry of a
  list \<open>rcp\<close> that holds each participant other than the sender that has a connection
  exactly once, with that connection; each call carries exactly the payload. No call
  is made for the sender's entry, and a connection that no other participant holds is
  not written to. The only errors it returns for a registered room are aggregates of
  failed writes: membership of the sender is not checked.
\<close>

theorem SignalMessage_delivers:
  "(Rooms s roomID = None \<longrightarrow>
      SignalMessage wm order s roomID senderID message writes =
        ((Some (RoomNotFound roomID), writes), s)) \<and>
   (\<forall>room. Rooms s roomID = Some room \<and> key_order room order \<longrightarrow>
      (\<exists>rcp.
         snd (fst (SignalMessage wm order s roomID senderID message writes)) =
           writes @ map (text_write message \<circ> snd) rcp \<and>
         distinct (map fst rcp) \<and>
         set rcp = {(p, c). p \<noteq> senderID \<and> (\<exists>u. Users room p = Some u \<and> Conn u = Some c)}) \<and>
      (\<forall>c. (\<forall>p u. Users room p = Some u \<and> p \<noteq> senderID \<longrightarrow> Conn u \<noteq> Some c) \<longrightarrow>
         c \<notin> w_conn ` set (drop (length writes)
           (snd (fst (SignalMessage wm order s roomID senderID message writes))))) \<and>
      (fst (fst (SignalMessage wm order s roomID senderID message writes)) = None \<or>
       (\<exists>errs. fst (fst (SignalMessage wm order s roomID senderID message writes)) =
          Some (DeliveryFailure errs))))"
proof (intro conjI impI allI)
  assume "Rooms s roomID = None"
  then show "SignalMessage wm order s roomID senderID message writes =
      ((Some (RoomNotFound roomID), writes), s)"
    by (simp add: SignalMessage_def)
next
  fix room
  assume a: "Rooms s roomID = Some room \<and> key_order room order"
  let ?rcp = "recipients senderID (range_Users room order)"
  have "snd (fst (SignalMessage wm order s roomID senderID message writes)) =
      writes @ map (text_write message \<circ> snd) ?rcp"
    using a by (simp add: SignalMessage_registered)
  moreover have "distinct (map fst ?rcp)"
    using a by (simp add: recipients_key_order(1))
  moreover have "set ?rcp =
      {(p, c). p \<noteq> senderID \<and> (\<exists>u. Users room p = Some u \<and> Conn u = Some c)}"
    using a by (simp add: recipients_key_order(2))
  ultimately show "\<exists>rcp.
      snd (fst (SignalMessage wm order s roomID senderID message writes)) =
        writes @ map (text_write message \<circ> snd) rcp \<and>
      distinct (map fst rcp) \<and>
      set rcp = {(p, c). p \<noteq> senderID \<and> (\<exists>u. Users room p = Some u \<and> Conn u = Some c)}"
    by blast
next
  fix room c
  assume "Rooms s roomID = Some room \<and> key_order room order"
    and "\<forall>p u. Users room p = Some u \<and> p \<noteq> senderID \<longrightarrow> Conn u \<noteq> Some c"
  then show "c \<notin> w_conn ` set (drop (length writes)
      (snd (fst (SignalMessage wm order s roomID senderID message writes))))"
    by (simp add: writes_only_to_recipients)
next
  fix room
  assume "Rooms s roomID = Some room \<and> key_order room order"
  then show "fst (fst (SignalMessage wm order s roomID senderID message writes)) = None \<or>
      (\<exists>errs. fst (fst (SignalMessage wm order s roomID senderID message writes)) =
         Some (DeliveryFailure errs))"
    by (simp add: SignalMessage_outcome)
qed

theorem SignalMessage_delivers_witness:
  "Rooms NewRTCService ''r1'' = None \<and>
   SignalMessage write_ok [] NewRTCService ''r1'' ''u1'' hello [] =
     ((Some (RoomNotFound ''r1''), []), NewRTCService) \<and>
   key_order (the (Rooms svc_u3 ''r1'')) [''u3'', ''u1'', ''u2''] \<and>
   (\<exists>rcp.
      snd (fst (SignalMessage write_ok [''u3'', ''u1'', ''u2''] svc_u3 ''r1'' ''u1'' hello [])) =
        [] @ map (text_write hello \<circ> snd) rcp \<and>
      distinct (map fst rcp) \<and>
      set rcp = {(p, c). p \<noteq> ''u1'' \<and>
        (\<exists>u. Users (the (Rooms svc_u3 ''r1'')) p = Some u \<and> Conn u = Some c)}) \<and>
   1 \<notin> w_conn ` set (drop (length ([] :: write_call list))
     (snd (fst (SignalMessage write_ok [''u3'', ''u1'', ''u2''] svc_u3 ''r1'' ''u1'' hello [])))) \<and>
   SignalMessage write_ok [''u3'', ''u1'', ''u2''] svc_u3 ''r1'' ''u1'' hello [] =
     ((None, [text_write hello 3, text_write hello 2]), svc_u3)"
proof -
  have x: "\<forall>p u. Users (the (Rooms svc_u3 ''r1'')) p = Some u \<and> p \<noteq> ''u1'' \<longrightarrow> Conn u \<noteq> Some 1"
    by (auto simp: svc_u3_Rooms split: if_splits)
  have n: "Rooms NewRTCService ''r1'' = None"
    by (simp add: NewRTCService_def)
  have r: "Rooms svc_u3 ''r1'' = Some (the (Rooms svc_u3 ''r1''))"
    by (simp add: svc_u3_Rooms)
  have k: "key_order (the (Rooms svc_u3 ''r1'')) [''u3'', ''u1'', ''u2'']"
    by (auto simp: key_order_def svc_u3_Rooms)
  have v: "SignalMessage write_ok [''u3'', ''u1'', ''u2''] svc_u3 ''r1'' ''u1'' hello [] =
      ((None, [text_write hello 3, text_write hello 2]), svc_u3)"
    by (simp add: SignalMessage_def svc_u3_Rooms range_Users_def write_ok_def text_write_def)
  note t1 = SignalMessage_delivers [where s = NewRTCService and roomID = "''r1''" and wm = write_ok
      and order = "[]" and senderID = "''u1''" and message = hello and writes = "[]"]
  note t2 = SignalMessage_delivers [where s = svc_u3 and roomID = "''r1''" and wm = write_ok
      and order = "[''u3'', ''u1'', ''u2'']" and senderID = "''u1''" and message = hello
      and writes = "[]"]
  from t1 n have "SignalMessage write_ok [] NewRTCService ''r1'' ''u1'' hello [] =
      ((Some (RoomNotFound ''r1''), []), NewRTCService)"
    by blast
  moreover from t2 r k have "\<exists>rcp.
      snd (fst (SignalMessage write_ok [''u3'', ''u1'', ''u2''] svc_u3 ''r1'' ''u1'' hello [])) =
        [] @ map (text_write hello \<circ> snd) rcp \<and>
      distinct (map fst rcp) \<and>
      set rcp = {(p, c). p \<noteq> ''u1'' \<and>
        (\<exists>u. Users (the (Rooms svc_u3 ''r1'')) p = Some u \<and> Conn u = Some c)}"
    by blast
  moreover from t2 r k x have "1 \<notin> w_conn ` set (drop (length ([] :: write_call list))
      (snd (fst (SignalMessage write_ok [''u3'', ''u1'', ''u2''] svc_u3 ''r1'' ''u1'' hello []))))"
    by blast
  ultimately show ?thesis
    using n k v by (intro conjI)
qed

subsection \<open>Failed writes do not stop the pass\<close>

text \<open>
  C2. On a registered room the calls made are the same whatever the writes return:
  one per recipient, the \<open>i\<close>-th on top of the calls before it. The failures recorded
  are exactly the writes that returned an error, each naming its participant and
  room; when there is any, the call returns the one error \<open>DeliveryFailure\<close> that
  carries them all, and when no write fails it returns no error. In a room whose only
  participant is the sender nothing is written and no error is returned.
\<close>

theorem SignalMessage_partial_failure:
  assumes "Rooms s roomID = Some room" and "key_order room order"
  shows "(\<exists>rcp sent fs.
            sent = map (text_write message \<circ> snd) rcp \<and>
            distinct (map fst rcp) \<and>
            set rcp = {(p, c). p \<noteq> senderID \<and> (\<exists>u. Users room p = Some u \<and> Conn u = Some c)} \<and>
            set fs = {SendFailed (fst (rcp ! i)) roomID e | i e.
                        i < length rcp \<and> wm (writes @ take i sent) (sent ! i) = Some e} \<and>
            SignalMessage wm order s roomID senderID message writes =
              ((if fs = [] then None else Some (DeliveryFailure fs), writes @ sent), s) \<and>
            ((\<forall>i<length rcp. wm (writes @ take i sent) (sent ! i) = None) \<longrightarrow> fs = [])) \<and>
         (dom (Users room) \<subseteq> {senderID} \<longrightarrow>
            SignalMessage wm order s roomID senderID message writes = ((None, writes), s))"
proof
  let ?rcp = "recipients senderID (range_Users room order)"
  let ?sent = "map (text_write message \<circ> snd) ?rcp"
  let ?fs = "failures wm roomID message writes ?rcp"
  have f: "set ?fs = {SendFailed (fst (?rcp ! i)) roomID e | i e.
      i < length ?rcp \<and> wm (writes @ take i ?sent) (?sent ! i) = Some e}"
    by (rule set_failures)
  have "(\<forall>i<length ?rcp. wm (writes @ take i ?sent) (?sent ! i) = None) \<longrightarrow> ?fs = []"
  proof
    assume "\<forall>i<length ?rcp. wm (writes @ take i ?sent) (?sent ! i) = None"
    with f have "set ?fs = {}" by simp
    then show "?fs = []" by simp
  qed
  moreover have "SignalMessage wm order s roomID senderID message writes =
      ((if ?fs = [] then None else Some (DeliveryFailure ?fs), writes @ ?sent), s)"
    using assms(1) by (rule SignalMessage_registered)
  moreover note f recipients_key_order [OF assms(2), of senderID]
  ultimately show "\<exists>rcp sent fs.
      sent = map (text_write message \<circ> snd) rcp \<and>
      distinct (map fst rcp) \<and>
      set rcp = {(p, c). p \<noteq> senderID \<and> (\<exists>u. Users room p = Some u \<and> Conn u = Some c)} \<and>
      set fs = {SendFailed (fst (rcp ! i)) roomID e | i e.
                  i < length rcp \<and> wm (writes @ take i sent) (sent ! i) = Some e} \<and>
      SignalMessage wm order s roomID senderID message writes =
        ((if fs = [] then None else Some (DeliveryFailure fs), writes @ sent), s) \<and>
      ((\<forall>i<length rcp. wm (writes @ take i sent) (sent ! i) = None) \<longrightarrow> fs = [])"
    by blast
next
  show "dom (Users room) \<subseteq> {senderID} \<longrightarrow>
      SignalMessage wm order s roomID senderID message writes = ((None, writes), s)"
    using assms by (simp add: SignalMessage_registered recipients_sole)
qed

theorem SignalMessage_partial_failure_witness:
  "Rooms svc_u3 ''r1'' = Some (the (Rooms svc_u3 ''r1'')) \<and>
   key_order (the (Rooms svc_u3 ''r1'')) [''u1'', ''u2'', ''u3''] \<and>
   (\<exists>rcp sent fs.
      sent = map (text_write hello \<circ> snd) rcp \<and>
      distinct (map fst rcp) \<and>
      set rcp = {(p, c). p \<noteq> ''u1'' \<and>
        (\<exists>u. Users (the (Rooms svc_u3 ''r1'')) p = Some u \<and> Conn u = Some c)} \<and>
      set fs = {SendFailed (fst (rcp ! i)) ''r1'' e | i e.
                  i < length rcp \<and> write_closed 2 ([] @ take i sent) (sent ! i) = Some e} \<and>
      SignalMessage (write_closed 2) [''u1'', ''u2'', ''u3''] svc_u3 ''r1'' ''u1'' hello [] =
        ((if fs = [] then None else Some (DeliveryFailure fs), [] @ sent), svc_u3) \<and>
      ((\<forall>i<length rcp. write_closed 2 ([] @ take i sent) (sent ! i) = None) \<longrightarrow> fs = [])) \<and>
   SignalMessage (write_closed 2) [''u1'', ''u2'', ''u3''] svc_u3 ''r1'' ''u1'' hello [] =
     ((Some (DeliveryFailure [SendFailed ''u2'' ''r1'' ''use of closed network connection'']),
       [text_write hello 2, text_write hello 3]), svc_u3) \<and>
   Error (DeliveryFailure [SendFailed ''u2'' ''r1'' ''use of closed network connection'']) =
     ''errors during SignalMessage broadcast: '' @
     ''[failed to send message to user u2 in room r1: use of closed network connection]'' \<and>
   Rooms svc_u1 ''r1'' = Some (the (Rooms svc_u1 ''r1'')) \<and>
   key_order (the (Rooms svc_u1 ''r1'')) [''u1''] \<and>
   dom (Users (the (Rooms svc_u1 ''r1''))) \<subseteq> {''u1''} \<and>
   SignalMessage (write_closed 2) [''u1''] svc_u1 ''r1'' ''u1'' hello [] = ((None, []), svc_u1)"
proof -
  have e: "Error (DeliveryFailure [SendFailed ''u2'' ''r1'' ''use of closed network connection'']) =
      ''errors during SignalMessage broadcast: '' @
      ''[failed to send message to user u2 in room r1: use of closed network connection]''"
    by simp
  have r3: "Rooms svc_u3 ''r1'' = Some (the (Rooms svc_u3 ''r1''))"
    by (simp add: svc_u3_Rooms)
  have k3: "key_order (the (Rooms svc_u3 ''r1'')) [''u1'', ''u2'', ''u3'']"
    by (auto simp: key_order_def svc_u3_Rooms)
  have v3: "SignalMessage (write_closed 2) [''u1'', ''u2'', ''u3''] svc_u3 ''r1'' ''u1'' hello [] =
      ((Some (DeliveryFailure [SendFailed ''u2'' ''r1'' ''use of closed network connection'']),
        [text_write hello 2, text_write hello 3]), svc_u3)"
    by (simp add: SignalMessage_def svc_u3_Rooms range_Users_def write_closed_def text_write_def)
  have r1: "Rooms svc_u1 ''r1'' = Some (the (Rooms svc_u1 ''r1''))"
    by (simp add: svc_u1_Rooms)
  have k1: "key_order (the (Rooms svc_u1 ''r1'')) [''u1'']"
    by (simp add: key_order_def svc_u1_Rooms)
  have d1: "dom (Users (the (Rooms svc_u1 ''r1''))) \<subseteq> {''u1''}"
    by (simp add: svc_u1_Rooms)
  note t3 = SignalMessage_partial_failure [OF r3 k3, where wm = "write_closed 2"
      and senderID = "''u1''" and message = hello and writes = "[]"]
  note t1 = SignalMessage_partial_failure [OF r1 k1, where wm = "write_closed 2"
      and senderID = "''u1''" and message = hello and writes = "[]"]
  from t1 d1 have "SignalMessage (write_closed 2) [''u1''] svc_u1 ''r1'' ''u1'' hello [] =
      ((None, []), svc_u1)"
    by blast
  with conjunct1 [OF t3] r3 k3 v3 e r1 k1 d1 show ?thesis
    by (intro conjI)
qed

subsection \<open>Participants without a connection\<close>

text \<open>
  C9. On a registered room the number of writes made is the number of participants
  other than the sender whose connection is not \<^verbatim>\<open>nil\<close>, and every failure carried by
  a \<open>DeliveryFailure\<close> names such a participant: a participant with a \<^verbatim>\<open>nil\<close>
  connection gets no write and no failure. When every participant other than the
  sender has a \<^verbatim>\<open>nil\<close> connection, the call writes nothing and returns no error.
\<close>

theorem SignalMessage_skips_nil:
  assumes "Rooms s roomID = Some room" and "key_order room order"
  shows "length (snd (fst (SignalMessage wm order s roomID senderID message writes))) =
           length writes +
           card {p. p \<noteq> senderID \<and> (\<exists>u c. Users room p = Some u \<and> Conn u = Some c)} \<and>
         (\<forall>errs. fst (fst (SignalMessage wm order s roomID senderID message writes)) =
                   Some (DeliveryFailure errs) \<longrightarrow>
            (\<forall>e \<in> set errs. \<exists>p u c t.
               e = SendFailed p roomID t \<and> p \<noteq> senderID \<and>
               Users room p = Some u \<and> Conn u = Some c)) \<and>
         ((\<forall>p u. Users room p = Some u \<and> p \<noteq> senderID \<longrightarrow> Conn u = None) \<longrightarrow>
            SignalMessage wm order s roomID senderID message writes = ((None, writes), s))"
proof (intro conjI allI impI ballI)
  let ?rcp = "recipients senderID (range_Users room order)"
  note k = recipients_key_order [OF assms(2), of senderID]
  have "{p. p \<noteq> senderID \<and> (\<exists>u c. Users room p = Some u \<and> Conn u = Some c)} =
      set (map fst ?rcp)"
    by (force simp: k(2))
  then have "card {p. p \<noteq> senderID \<and> (\<exists>u c. Users room p = Some u \<and> Conn u = Some c)} =
      length ?rcp"
    using k(1) by (simp only: distinct_card length_map)
  then show "length (snd (fst (SignalMessage wm order s roomID senderID message writes))) =
      length writes +
      card {p. p \<noteq> senderID \<and> (\<exists>u c. Users room p = Some u \<and> Conn u = Some c)}"
    using assms(1) by (simp add: SignalMessage_registered)
next
  fix errs e
  let ?rcp = "recipients senderID (range_Users room order)"
  assume "fst (fst (SignalMessage wm order s roomID senderID message writes)) =
      Some (DeliveryFailure errs)" and e: "e \<in> set errs"
  then have "errs = failures wm roomID message writes ?rcp"
    using assms(1) by (simp add: SignalMessage_registered split: if_splits)
  with e obtain i t where "e = SendFailed (fst (?rcp ! i)) roomID t" and i: "i < length ?rcp"
    by (auto simp: set_failures)
  moreover from i have "?rcp ! i \<in> set ?rcp"
    by simp
  then have "fst (?rcp ! i) \<noteq> senderID \<and>
      (\<exists>u c. Users room (fst (?rcp ! i)) = Some u \<and> Conn u = Some c)"
    unfolding recipients_key_order(2) [OF assms(2)] by (cases "?rcp ! i") auto
  ultimately show "\<exists>p u c t. e = SendFailed p roomID t \<and> p \<noteq> senderID \<and>
      Users room p = Some u \<and> Conn u = Some c"
    by blast
next
  assume a: "\<forall>p u. Users room p = Some u \<and> p \<noteq> senderID \<longrightarrow> Conn u = None"
  have "set (recipients senderID (range_Users room order)) = {}"
    using a by (auto simp: recipients_key_order(2) [OF assms(2)])
  then have "recipients senderID (range_Users room order) = []"
    by simp
  then show "SignalMessage wm order s roomID senderID message writes = ((None, writes), s)"
    using assms(1) by (simp add: SignalMessage_registered)
qed

theorem SignalMessage_skips_nil_witness:
  "Rooms svc_rest3 ''r1'' = Some (the (Rooms svc_rest3 ''r1'')) \<and>
   key_order (the (Rooms svc_rest3 ''r1'')) [''u1'', ''u2'', ''u3''] \<and>
   Users (the (Rooms svc_rest3 ''r1'')) ''u2'' = Some \<lparr>User.ID = ''u2'', Conn = None\<rparr> \<and>
   SignalMessage (write_closed 3) [''u1'', ''u2'', ''u3''] svc_rest3 ''r1'' ''u1'' hello [] =
     ((Some (DeliveryFailure [SendFailed ''u3'' ''r1'' ''use of closed network connection'']),
       [text_write hello 3]), svc_rest3) \<and>
   length (snd (fst (SignalMessage (write_closed 3) [''u1'', ''u2'', ''u3''] svc_rest3 ''r1'' ''u1''
       hello []))) =
     length ([] :: write_call list) +
     card {p. p \<noteq> ''u1'' \<and>
       (\<exists>u c. Users (the (Rooms svc_rest3 ''r1'')) p = Some u \<and> Conn u = Some c)} \<and>
   Rooms svc_rest ''r1'' = Some (the (Rooms svc_rest ''r1'')) \<and>
   key_order (the (Rooms svc_rest ''r1'')) [''u1'', ''u2''] \<and>
   SignalMessage (write_closed 1) [''u1'', ''u2''] svc_rest ''r1'' ''u1'' hello [] =
     ((None, []), svc_rest)"
proof -
  have r3: "Rooms svc_rest3 ''r1'' = Some (the (Rooms svc_rest3 ''r1''))"
    by (simp add: svc_rest3_Rooms)
  have k3: "key_order (the (Rooms svc_rest3 ''r1'')) [''u1'', ''u2'', ''u3'']"
    by (auto simp: key_order_def svc_rest3_Rooms)
  have u2: "Users (the (Rooms svc_rest3 ''r1'')) ''u2'' = Some \<lparr>User.ID = ''u2'', Conn = None\<rparr>"
    by (simp add: svc_rest3_Rooms)
  have v3: "SignalMessage (write_closed 3) [''u1'', ''u2'', ''u3''] svc_rest3 ''r1'' ''u1'' hello [] =
      ((Some (DeliveryFailure [SendFailed ''u3'' ''r1'' ''use of closed network connection'']),
        [text_write hello 3]), svc_rest3)"
    by (simp add: SignalMessage_def svc_rest3_Rooms range_Users_def write_closed_def text_write_def)
  have r2: "Rooms svc_rest ''r1'' = Some (the (Rooms svc_rest ''r1''))"
    by (simp add: svc_rest_Rooms)
  have k2: "key_order (the (Rooms svc_rest ''r1'')) [''u1'', ''u2'']"
    by (auto simp: key_order_def svc_rest_Rooms)
  have n2: "\<forall>p u. Users (the (Rooms svc_rest ''r1'')) p = Some u \<and> p \<noteq> ''u1'' \<longrightarrow> Conn u = None"
    by (auto simp: svc_rest_Rooms split: if_splits)
  note t3 = SignalMessage_skips_nil [OF r3 k3, where wm = "write_closed 3"
      and senderID = "''u1''" and message = hello and writes = "[]"]
  note t2 = SignalMessage_skips_nil [OF r2 k2, where wm = "write_closed 1"
      and senderID = "''u1''" and message = hello and writes = "[]"]
  from t2 n2 have "SignalMessage (write_closed 1) [''u1'', ''u2''] svc_rest ''r1'' ''u1'' hello [] =
      ((None, []), svc_rest)"
    by blast
  with conjunct1 [OF t3] r3 k3 u2 v3 r2 k2 show ?thesis
    by (intro conjI)
qed

subsection \<open>The frames the handler relays\<close>

text \<open>
  C3, as the code has it. For every frame \<open>(mt, msg)\<close> the handler relays in a
  registered room, the frames written are one per participant other than the sender
  that has a connection, each with exactly the bytes \<open>msg\<close> and each of type
  \<open>TextMessage\<close>, whatever the type \<open>mt\<close> of the frame read. A binary frame is
  therefore relayed as a text frame, as the instance after the theorem shows: the
  type of the frame is kept only when it is text.
\<close>

theorem defaultHandler_frame_text:
  assumes "Rooms s roomID = Some room" and "key_order room order"
  shows "\<exists>rcp.
           defaultHandler_frame wm order s roomID userID (mt, msg) writes =
             (writes @ map (\<lambda>(p, c). \<lparr>w_conn = c, w_type = TextMessage, w_data = msg\<rparr>) rcp, s) \<and>
           distinct (map fst rcp) \<and>
           set rcp = {(p, c). p \<noteq> userID \<and> (\<exists>u. Users room p = Some u \<and> Conn u = Some c)}"
proof -
  let ?rcp = "recipients userID (range_Users room order)"
  have "map (text_write msg \<circ> snd) ?rcp =
      map (\<lambda>(p, c). \<lparr>w_conn = c, w_type = TextMessage, w_data = msg\<rparr>) ?rcp"
    by (simp add: text_write_def split_beta)
  then have "defaultHandler_frame wm order s roomID userID (mt, msg) writes =
      (writes @ map (\<lambda>(p, c). \<lparr>w_conn = c, w_type = TextMessage, w_data = msg\<rparr>) ?rcp, s)"
    using assms(1) by (simp add: defaultHandler_frame_def SignalMessage_registered)
  with recipients_key_order [OF assms(2), of userID] show ?thesis
    by blast
qed

theorem defaultHandler_frame_text_witness:
  "Rooms svc_u2 ''r1'' = Some (the (Rooms svc_u2 ''r1'')) \<and>
   key_order (the (Rooms svc_u2 ''r1'')) [''u1'', ''u2''] \<and>
   (\<exists>rcp.
      defaultHandler_frame write_ok [''u1'', ''u2''] svc_u2 ''r1'' ''u1'' (BinaryMessage, hello) [] =
        ([] @ map (\<lambda>(p, c). \<lparr>w_conn = c, w_type = TextMessage, w_data = hello\<rparr>) rcp, svc_u2) \<and>
      distinct (map fst rcp) \<and>
      set rcp = {(p, c). p \<noteq> ''u1'' \<and>
        (\<exists>u. Users (the (Rooms svc_u2 ''r1'')) p = Some u \<and> Conn u = Some c)}) \<and>
   defaultHandler_frame write_ok [''u1'', ''u2''] svc_u2 ''r1'' ''u1'' (TextMessage, hello) [] =
     ([\<lparr>w_conn = 2, w_type = TextMessage, w_data = hello\<rparr>], svc_u2)"
proof -
  have r: "Rooms svc_u2 ''r1'' = Some (the (Rooms svc_u2 ''r1''))"
    by (simp add: svc_u2_Rooms)
  have k: "key_order (the (Rooms svc_u2 ''r1'')) [''u1'', ''u2'']"
    by (auto simp: key_order_def svc_u2_Rooms)
  have v: "defaultHandler_frame write_ok [''u1'', ''u2''] svc_u2 ''r1'' ''u1'' (TextMessage, hello) [] =
      ([\<lparr>w_conn = 2, w_type = TextMessage, w_data = hello\<rparr>], svc_u2)"
    by (simp add: defaultHandler_frame_def SignalMessage_def svc_u2_Rooms range_Users_def
          write_ok_def)
  from defaultHandler_frame_text [OF r k, where wm = write_ok and userID = "''u1''"
      and mt = BinaryMessage and msg = hello and writes = "[]"] r k v
  show ?thesis
    by (intro conjI)
qed

text \<open>
  A binary frame read from \<^verbatim>\<open>u1\<close> is written to \<^verbatim>\<open>u2\<close> as a text frame.
\<close>

theorem frame_type_not_preserved:
  "fst (defaultHandler_frame write_ok [''u1'', ''u2''] svc_u2 ''r1'' ''u1'' (BinaryMessage, hello) []) =
     [\<lparr>w_conn = 2, w_type = TextMessage, w_data = hello\<rparr>] \<and>
   TextMessage \<noteq> BinaryMessage"
  by (simp add: defaultHandler_frame_def SignalMessage_def svc_u2_Rooms range_Users_def
        write_ok_def TextMessage_def BinaryMessage_def)

end
